theory Spec2Isabelle
  imports Main
begin

section \<open>Values of the scripts\<close>

text \<open>
  The repository holds two scripts: \<^verbatim>\<open>index.js\<close>, which audits the URLs one after the
  other with retries, and a second script, which audits them in concurrent batches.
  Definitions of the second carry the suffix \<open>_batch\<close> wherever a name occurs in both.

  A JavaScript string is modelled as a \<open>string\<close>: a list of code units, each below 256.
  A thrown value is an \<open>Error\<close> object, of which the scripts only ever read the
  \<open>message\<close>.
\<close>

datatype js_error = Error (message: string)

text \<open>
  A category score of a result record: a number (the value of
  \<^verbatim>\<open>Math.round(score * 100)\<close>), the string \<^verbatim>\<open>"N/A"\<close>, or no such property at all
  (reading it gives \<^verbatim>\<open>undefined\<close>).
\<close>

datatype score = Num int | NA | Absent

text \<open>
  The object a run of one URL produces. The field \<open>error\<close> is \<open>None\<close> where the object
  has \<^verbatim>\<open>error: null\<close> or no \<^verbatim>\<open>error\<close> property; the scripts never tell the two apart.
\<close>

record audit_result =
  url :: string
  Performance :: score
  Accessibility :: score
  BestPractices :: score
  SEO :: score
  error :: "string option"

subsection \<open>Strings\<close>

text \<open>The decimal text of an integer-valued number in a template literal.\<close>

fun digits :: "nat \<Rightarrow> string" where
  "digits n = (if n < 10 then [''0123456789'' ! n]
               else digits (n div 10) @ [''0123456789'' ! (n mod 10)])"

declare digits.simps [simp del]

definition number_text :: "int \<Rightarrow> string" where
  "number_text i = (if i < 0 then CHR ''-'' # digits (nat (- i)) else digits (nat i))"

text \<open>\<^verbatim>\<open>s.split("\n")\<close>: the pieces between line feeds; never an empty array.\<close>

fun split_nl :: "string \<Rightarrow> string list" where
  "split_nl [] = [[]]"
| "split_nl (c # cs) =
     (if c = CHR 0x0A then [] # split_nl cs
      else (case split_nl cs of [] \<Rightarrow> [[c]] | l # ls \<Rightarrow> (c # l) # ls))"

text \<open>\<^verbatim>\<open>xs.join("\n")\<close>.\<close>

fun join_nl :: "string list \<Rightarrow> string" where
  "join_nl [] = []"
| "join_nl [x] = x"
| "join_nl (x # y # ys) = x @ CHR 0x0A # join_nl (y # ys)"

text \<open>
  \<^verbatim>\<open>s.trim()\<close> removes white space and line terminators from both ends; below 256 these
  are the code units 9 to 13, 32 and 160.
\<close>

definition is_space :: "char \<Rightarrow> bool" where
  "is_space c = (c \<in> set [CHR 0x09, CHR 0x0A, CHR 0x0B, CHR 0x0C, CHR 0x0D, CHR 0x20, CHR 0xA0])"

definition trim :: "string \<Rightarrow> string" where
  "trim s = rev (dropWhile is_space (rev (dropWhile is_space s)))"

text \<open>\<^verbatim>\<open>s.startsWith("http")\<close>.\<close>

definition startsWith_http :: "string \<Rightarrow> bool" where
  "startsWith_http l = (take 4 l = ''http'')"

subsection \<open>Truthiness\<close>

text \<open>
  \<^verbatim>\<open>x || ""\<close> inside a template literal, for a score: a number other than 0 and the
  string \<^verbatim>\<open>"N/A"\<close> are truthy and print as they are; 0 and \<^verbatim>\<open>undefined\<close> are falsy and
  give the empty string.
\<close>

fun score_or_empty :: "score \<Rightarrow> string" where
  "score_or_empty (Num n) = (if n = 0 then [] else number_text n)"
| "score_or_empty NA = ''N/A''"
| "score_or_empty Absent = []"

text \<open>\<^verbatim>\<open>r.error || ""\<close>: \<^verbatim>\<open>null\<close>, \<^verbatim>\<open>undefined\<close> and the empty string give the empty string.\<close>

fun error_or_empty :: "string option \<Rightarrow> string" where
  "error_or_empty None = []"
| "error_or_empty (Some m) = m"

text \<open>\<^verbatim>\<open>result.error\<close> as a condition: a non-empty string is truthy, everything else falsy.\<close>

fun truthy :: "string option \<Rightarrow> bool" where
  "truthy None = False"
| "truthy (Some m) = (m \<noteq> [])"

section \<open>The file system\<close>

text \<open>
  Files by path, and the directories that exist. Permissions, disk space and the
  normalisation of paths are not modelled: a write fails only when the directory of its
  path is missing, and a read fails where there is no file (with the message of a missing
  file also where the path is a directory).
\<close>

record fs_state =
  files :: "string \<rightharpoonup> string"
  dirs :: "string set"

definition existsSync :: "fs_state \<Rightarrow> string \<Rightarrow> bool" where
  "existsSync fs p = (files fs p \<noteq> None \<or> p \<in> dirs fs)"

definition enoent :: "string \<Rightarrow> js_error" where
  "enoent p = Error (''ENOENT: no such file or directory, open '' @ [CHR 0x27] @ p @ [CHR 0x27])"

definition readFileSync :: "fs_state \<Rightarrow> string \<Rightarrow> js_error + string" where
  "readFileSync fs p = (case files fs p of None \<Rightarrow> Inl (enoent p) | Some c \<Rightarrow> Inr c)"

text \<open>The directory part of a path: what stands before its last slash, if it has one.\<close>

fun dirname :: "string \<Rightarrow> string option" where
  "dirname [] = None"
| "dirname (c # cs) =
     (case dirname cs of
        Some d \<Rightarrow> Some (c # d)
      | None \<Rightarrow> if c = CHR ''/'' then Some [] else None)"

definition writable :: "fs_state \<Rightarrow> string \<Rightarrow> bool" where
  "writable fs p = (case dirname p of None \<Rightarrow> True | Some d \<Rightarrow> d \<in> dirs fs)"

text \<open>\<^verbatim>\<open>fs.writeFileSync(p, c)\<close> replaces the content of \<open>p\<close>.\<close>

definition writeFileSync :: "fs_state \<Rightarrow> string \<Rightarrow> string \<Rightarrow> js_error + fs_state" where
  "writeFileSync fs p c =
     (if writable fs p then Inr (fs\<lparr>files := (files fs)(p \<mapsto> c)\<rparr>) else Inl (enoent p))"

definition mkdirSync :: "fs_state \<Rightarrow> string \<Rightarrow> fs_state" where
  "mkdirSync fs p = fs\<lparr>dirs := insert p (dirs fs)\<rparr>"

section \<open>The platform's URL parser\<close>

text \<open>
  \<^verbatim>\<open>new URL(s)\<close> is the platform's and not part of the repository, so it is a parameter
  of every definition that calls it: \<open>None\<close> where the constructor throws, otherwise the
  object, of which only \<^verbatim>\<open>hostname\<close> is read.
\<close>

record url_object =
  hostname :: string

type_synonym url_api = "string \<Rightarrow> url_object option"

text \<open>
  What the platform answers on the four strings the examples below use; on any other
  string \<open>sample_URL\<close> says nothing that is relied on.
  \<^verbatim>\<open>new URL("http")\<close> throws (no scheme, no base);
  \<^verbatim>\<open>new URL("http://a.b").hostname\<close> is \<^verbatim>\<open>"a.b"\<close>;
  \<^verbatim>\<open>new URL("http://a_b").hostname\<close> is \<^verbatim>\<open>"a_b"\<close>;
  \<^verbatim>\<open>new URL("https://example.com").hostname\<close> is \<^verbatim>\<open>"example.com"\<close>.
\<close>

definition sample_URL :: url_api where
  "sample_URL s =
     (if s = ''http://a.b'' then Some \<lparr>hostname = ''a.b''\<rparr>
      else if s = ''http://a_b'' then Some \<lparr>hostname = ''a_b''\<rparr>
      else if s = ''https://example.com'' then Some \<lparr>hostname = ''example.com''\<rparr>
      else None)"

section \<open>Loading the URLs\<close>

subsection \<open>\<^verbatim>\<open>index.js\<close>\<close>

definition validateUrl :: "url_api \<Rightarrow> string \<Rightarrow> bool" where
  "validateUrl new_URL u = (case new_URL u of Some _ \<Rightarrow> True | None \<Rightarrow> False)"

text \<open>The chain \<^verbatim>\<open>.split("\n").map((l) => l.trim()).filter(...)\<close> on the file's content.\<close>

definition url_lines :: "url_api \<Rightarrow> string \<Rightarrow> string list" where
  "url_lines new_URL content =
     filter (\<lambda>l. startsWith_http l \<and> validateUrl new_URL l) (map trim (split_nl content))"

definition defaultUrls :: "string list" where
  "defaultUrls =
     [''https://ascenten.net/culture.html'',
      ''https://ascenten.net/affirmative-action-policy.html'']"

text \<open>
  \<^verbatim>\<open>loadUrls\<close>, with the path \<^verbatim>\<open>options.urls\<close> and the local constant \<^verbatim>\<open>defaultUrls\<close> as
  parameters (the script's own list is \<open>defaultUrls\<close>). The condition is the source's:
  the file is read where \<^verbatim>\<open>existsSync\<close> says it does not exist.
\<close>

definition loadUrls :: "url_api \<Rightarrow> string list \<Rightarrow> string \<Rightarrow> fs_state \<Rightarrow> js_error + string list" where
  "loadUrls new_URL defaults path fs =
     (case (if \<not> existsSync fs path
            then (case readFileSync fs path of
                    Inl e \<Rightarrow> Inl e
                  | Inr content \<Rightarrow> Inr (url_lines new_URL content))
            else Inr [])
      of Inl e \<Rightarrow> Inl e
       | Inr urlList \<Rightarrow> Inr (if length urlList \<noteq> 0 then urlList else defaults))"

subsection \<open>The batch script\<close>

definition url_lines_batch :: "string \<Rightarrow> string list" where
  "url_lines_batch content = filter startsWith_http (map trim (split_nl content))"

definition urlList_batch :: "fs_state \<Rightarrow> js_error + string list" where
  "urlList_batch fs =
     (if existsSync fs ''urls.txt''
      then (case readFileSync fs ''urls.txt'' of
              Inl e \<Rightarrow> Inl e
            | Inr content \<Rightarrow> Inr (url_lines_batch content))
      else Inr [])"

definition defaultUrls_batch :: "string list" where
  "defaultUrls_batch = []"

definition urls_batch :: "fs_state \<Rightarrow> js_error + string list" where
  "urls_batch fs =
     (case urlList_batch fs of
        Inl e \<Rightarrow> Inl e
      | Inr urlList \<Rightarrow> Inr (if length urlList \<noteq> 0 then urlList else defaultUrls_batch))"

section \<open>Naming the report files\<close>

text \<open>
  \<^verbatim>\<open>safeName\<close> is written the same in both scripts. The second argument is what
  \<^verbatim>\<open>new Date().toISOString()\<close> returns at the call.
\<close>

definition dots_to_underscores :: "string \<Rightarrow> string" where
  "dots_to_underscores s = map (\<lambda>c. if c = CHR ''.'' then CHR ''_'' else c) s"

definition stamp_of :: "string \<Rightarrow> string" where
  "stamp_of s = map (\<lambda>c. if c = CHR '':'' \<or> c = CHR ''.'' then CHR ''-'' else c) s"

definition safeName :: "url_api \<Rightarrow> string \<Rightarrow> string \<Rightarrow> js_error + string" where
  "safeName new_URL now u =
     (case new_URL u of
        None \<Rightarrow> Inl (Error ''Invalid URL'')
      | Some parsed \<Rightarrow>
          (let host = dots_to_underscores (hostname parsed);
               stamp = stamp_of now
           in Inr (host @ ''__'' @ stamp)))"

section \<open>The browser and the audit engine\<close>

text \<open>
  \<^verbatim>\<open>launch\<close> and \<^verbatim>\<open>lighthouse\<close> are external; the flags, the options and the
  configuration they are called with (\<^verbatim>\<open>getLighthouseConfig\<close>, the timeout) reach nothing
  but them, and a timeout of the engine is one of its two outcomes, an error thrown or a
  result returned. What they do during one call of
  \<^verbatim>\<open>runLighthouse\<close> is given by an \<open>attempt_world\<close>: whether \<^verbatim>\<open>launch\<close> throws or
  returns a browser, whether that browser's \<^verbatim>\<open>kill\<close> throws, whether \<^verbatim>\<open>lighthouse\<close>
  throws or returns a result (\<^verbatim>\<open>undefined\<close> is \<open>None\<close>), and what the clock reads. For each
  category the engine's result holds \<open>None\<close> (no such category) or the value of
  \<^verbatim>\<open>Math.round(score * 100)\<close>; the floating-point product itself is not modelled.
\<close>

record chrome =
  port :: nat
  kill_result :: "js_error option"

record runner_result =
  report_json :: string
  report_html :: string
  performance :: "int option"
  accessibility :: "int option"
  best_practices :: "int option"
  seo :: "int option"

record attempt_world =
  launch_result :: "js_error + chrome"
  lighthouse_result :: "js_error + runner_result option"
  clock :: string

text \<open>The world of a run: what happens during the call of \<^verbatim>\<open>runLighthouse\<close> number \<open>k\<close>.\<close>

type_synonym world = "nat \<Rightarrow> attempt_world"

text \<open>
  What is observed of a run: a browser launched by call \<open>k\<close>, the engine invoked by call
  \<open>k\<close> on a URL, the browser of call \<open>k\<close> killed.
\<close>

datatype event = Launch nat | Audit nat string | Kill nat

text \<open>
  The state a run threads: the file system, the events so far, and the number of calls
  of \<^verbatim>\<open>runLighthouse\<close> made so far.
\<close>

record sys =
  disk :: fs_state
  trace :: "event list"
  calls :: nat

definition type_error_reading :: "string \<Rightarrow> js_error" where
  "type_error_reading p =
     Error (''Cannot read properties of undefined (reading '' @ [CHR 0x27] @ p @ [CHR 0x27] @ '')'')"

subsection \<open>\<^verbatim>\<open>runLighthouse\<close> of \<^verbatim>\<open>index.js\<close>\<close>

definition failure :: "string \<Rightarrow> string \<Rightarrow> audit_result" where
  "failure u m =
     \<lparr>url = u, Performance = NA, Accessibility = NA, BestPractices = NA, SEO = NA,
      error = Some m\<rparr>"

definition score_or_NA :: "int option \<Rightarrow> score" where
  "score_or_NA c = (case c of Some n \<Rightarrow> Num n | None \<Rightarrow> NA)"

text \<open>
  The \<^verbatim>\<open>try\<close> block: its outcome (a thrown error or the returned object), the value of
  the variable \<^verbatim>\<open>chrome\<close> when the block is left, and the state.
\<close>

definition runLighthouse_try ::
  "url_api \<Rightarrow> attempt_world \<Rightarrow> nat \<Rightarrow> string \<Rightarrow> sys \<Rightarrow>
     (js_error + audit_result) \<times> chrome option \<times> sys" where
  "runLighthouse_try new_URL w k u st =
     (case launch_result w of
        Inl e \<Rightarrow> (Inl e, None, st)
      | Inr c \<Rightarrow>
          (let st1 = st\<lparr>trace := trace st @ [Launch k, Audit k u]\<rparr> in
           case lighthouse_result w of
             Inl e \<Rightarrow> (Inl e, Some c, st1)
           | Inr result_var \<Rightarrow>
               (case safeName new_URL (clock w) u of
                  Inl e \<Rightarrow> (Inl e, Some c, st1)
                | Inr name \<Rightarrow>
                    (case result_var of
                       None \<Rightarrow> (Inl (type_error_reading ''report''), Some c, st1)
                     | Some result \<Rightarrow>
                         (case writeFileSync (disk st1) (''reports/'' @ name @ ''.json'')
                                 (report_json result) of
                            Inl e \<Rightarrow> (Inl e, Some c, st1)
                          | Inr fs1 \<Rightarrow>
                              (case writeFileSync fs1 (''reports/'' @ name @ ''.html'')
                                      (report_html result) of
                                 Inl e \<Rightarrow> (Inl e, Some c, st1\<lparr>disk := fs1\<rparr>)
                               | Inr fs2 \<Rightarrow>
                                   (Inr \<lparr>url = u,
                                         Performance = score_or_NA (performance result),
                                         Accessibility = score_or_NA (accessibility result),
                                         BestPractices = score_or_NA (best_practices result),
                                         SEO = score_or_NA (seo result),
                                         error = None\<rparr>,
                                    Some c, st1\<lparr>disk := fs2\<rparr>)))))))"

text \<open>
  The whole function: the \<^verbatim>\<open>catch\<close> block turns a thrown error into the failure
  object, and the \<^verbatim>\<open>finally\<close> block kills the browser if \<^verbatim>\<open>chrome\<close> is set; an error
  thrown by \<^verbatim>\<open>kill\<close> replaces the value being returned.
\<close>

definition runLighthouse ::
  "url_api \<Rightarrow> world \<Rightarrow> string \<Rightarrow> sys \<Rightarrow> (js_error + audit_result) \<times> sys" where
  "runLighthouse new_URL W u st =
     (let k = calls st in
      case runLighthouse_try new_URL (W k) k u (st\<lparr>calls := Suc k\<rparr>) of
        (out, chrome_var, st1) \<Rightarrow>
          (let caught = (case out of Inl e \<Rightarrow> failure u (message e) | Inr r \<Rightarrow> r) in
           case chrome_var of
             None \<Rightarrow> (Inr caught, st1)
           | Some c \<Rightarrow>
               (let st2 = st1\<lparr>trace := trace st1 @ [Kill k]\<rparr> in
                case kill_result c of
                  None \<Rightarrow> (Inr caught, st2)
                | Some e \<Rightarrow> (Inl e, st2))))"

subsection \<open>\<^verbatim>\<open>runLighthouse\<close> of the batch script\<close>

definition score_batch :: "int option \<Rightarrow> js_error + score" where
  "score_batch c = (case c of Some n \<Rightarrow> Inr (Num n) | None \<Rightarrow> Inl (type_error_reading ''score''))"

text \<open>The object literal the function returns: the four scores are read in this order.\<close>

definition scores_batch :: "string \<Rightarrow> runner_result \<Rightarrow> js_error + audit_result" where
  "scores_batch u result =
     (case score_batch (performance result) of
        Inl e \<Rightarrow> Inl e
      | Inr p \<Rightarrow>
          (case score_batch (accessibility result) of
             Inl e \<Rightarrow> Inl e
           | Inr a \<Rightarrow>
               (case score_batch (best_practices result) of
                  Inl e \<Rightarrow> Inl e
                | Inr b \<Rightarrow>
                    (case score_batch (seo result) of
                       Inl e \<Rightarrow> Inl e
                     | Inr s \<Rightarrow>
                         Inr \<lparr>url = u, Performance = p, Accessibility = a,
                              BestPractices = b, SEO = s, error = None\<rparr>))))"

text \<open>
  There is no \<^verbatim>\<open>try\<close> here: whatever a step throws leaves the function at once, and
  \<^verbatim>\<open>chrome.kill()\<close> is the statement after the call of \<^verbatim>\<open>lighthouse\<close>.
\<close>

definition runLighthouse_batch ::
  "url_api \<Rightarrow> world \<Rightarrow> string \<Rightarrow> sys \<Rightarrow> (js_error + audit_result) \<times> sys" where
  "runLighthouse_batch new_URL W u st =
     (let k = calls st; w = W k; st0 = st\<lparr>calls := Suc k\<rparr> in
      case launch_result w of
        Inl e \<Rightarrow> (Inl e, st0)
      | Inr c \<Rightarrow>
          (let st1 = st0\<lparr>trace := trace st0 @ [Launch k, Audit k u]\<rparr> in
           case lighthouse_result w of
             Inl e \<Rightarrow> (Inl e, st1)
           | Inr result_var \<Rightarrow>
               (let st2 = st1\<lparr>trace := trace st1 @ [Kill k]\<rparr> in
                case kill_result c of
                  Some e \<Rightarrow> (Inl e, st2)
                | None \<Rightarrow>
                    (case safeName new_URL (clock w) u of
                       Inl e \<Rightarrow> (Inl e, st2)
                     | Inr name \<Rightarrow>
                         (case result_var of
                            None \<Rightarrow> (Inl (type_error_reading ''report''), st2)
                          | Some result \<Rightarrow>
                              (case writeFileSync (disk st2) (''reports/'' @ name @ ''.json'')
                                      (report_json result) of
                                 Inl e \<Rightarrow> (Inl e, st2)
                               | Inr fs1 \<Rightarrow>
                                   (case writeFileSync fs1 (''reports/'' @ name @ ''.html'')
                                           (report_html result) of
                                      Inl e \<Rightarrow> (Inl e, st2\<lparr>disk := fs1\<rparr>)
                                    | Inr fs2 \<Rightarrow>
                                        (scores_batch u result, st2\<lparr>disk := fs2\<rparr>))))))))"

section \<open>Retries and scheduling\<close>

subsection \<open>\<^verbatim>\<open>runLighthouseWithRetry\<close> of \<^verbatim>\<open>index.js\<close>\<close>

text \<open>
  The loop \<^verbatim>\<open>for (let attempt = 1; attempt <= maxRetries + 1; attempt++)\<close>, entered at
  \<open>attempt\<close>. The count \<^verbatim>\<open>maxRetries\<close> comes from \<^verbatim>\<open>parseInt\<close> and may be negative (the
  guard is then false at once, as it is for \<^verbatim>\<open>NaN\<close>); a loop that ends without a
  \<^verbatim>\<open>return\<close> makes the function return \<^verbatim>\<open>undefined\<close>, here \<open>None\<close>. The pause of three
  seconds before a retry has no effect on the result.
\<close>

function runLighthouseWithRetry_from ::
  "url_api \<Rightarrow> world \<Rightarrow> string \<Rightarrow> int \<Rightarrow> int \<Rightarrow> sys \<Rightarrow> audit_result option \<times> sys" where
  "runLighthouseWithRetry_from new_URL W u maxRetries attempt st =
     (if attempt \<le> maxRetries + 1 then
        (case runLighthouse new_URL W u st of
           (Inr result, st') \<Rightarrow>
             if \<not> truthy (error result) then (Some result, st')
             else if truthy (error result) \<and> attempt \<le> maxRetries
               then runLighthouseWithRetry_from new_URL W u maxRetries (attempt + 1) st'
             else (Some result, st')
         | (Inl e, st') \<Rightarrow>
             if attempt > maxRetries then (Some (failure u (message e)), st')
             else runLighthouseWithRetry_from new_URL W u maxRetries (attempt + 1) st')
      else (None, st))"
  by pat_completeness auto
termination
  by (relation "measure (\<lambda>(new_URL, W, u, maxRetries, attempt, st). nat (maxRetries + 1 - attempt))")
     auto

declare runLighthouseWithRetry_from.simps [simp del]

definition runLighthouseWithRetry ::
  "url_api \<Rightarrow> world \<Rightarrow> string \<Rightarrow> int \<Rightarrow> sys \<Rightarrow> audit_result option \<times> sys" where
  "runLighthouseWithRetry new_URL W u maxRetries st =
     runLighthouseWithRetry_from new_URL W u maxRetries 1 st"

subsection \<open>\<^verbatim>\<open>runAllTests\<close> of \<^verbatim>\<open>index.js\<close>\<close>

text \<open>
  The loop over the URLs, with the array \<^verbatim>\<open>results\<close> as accumulator; the second
  argument of \<^verbatim>\<open>runLighthouseWithRetry\<close> is the global \<^verbatim>\<open>retries\<close>.
\<close>

fun runAllTests_from ::
  "url_api \<Rightarrow> world \<Rightarrow> int \<Rightarrow> string list \<Rightarrow> audit_result option list \<Rightarrow> sys \<Rightarrow>
     audit_result option list \<times> sys" where
  "runAllTests_from new_URL W r [] results st = (results, st)"
| "runAllTests_from new_URL W r (u # us) results st =
     (case runLighthouseWithRetry new_URL W u r st of
        (result, st') \<Rightarrow> runAllTests_from new_URL W r us (results @ [result]) st')"

definition runAllTests ::
  "url_api \<Rightarrow> world \<Rightarrow> int \<Rightarrow> string list \<Rightarrow> sys \<Rightarrow> audit_result option list \<times> sys" where
  "runAllTests new_URL W r us st = runAllTests_from new_URL W r us [] st"

subsection \<open>\<^verbatim>\<open>runInBatches\<close> of the batch script\<close>

text \<open>
  The first loop, \<^verbatim>\<open>for (let i = 0; i < urls.length; i += batchSize)\<close>, entered at \<open>i\<close>:
  with a batch size of 0 it never ends, which is the value \<open>None\<close>.
\<close>

partial_function (option) make_batches ::
  "string list \<Rightarrow> nat \<Rightarrow> nat \<Rightarrow> string list list \<Rightarrow> string list list option" where
  "make_batches us batchSize i batches =
     (if i < length us
      then make_batches us batchSize (i + batchSize) (batches @ [take batchSize (drop i us)])
      else Some batches)"

declare make_batches.simps [code]

text \<open>
  One element of \<^verbatim>\<open>promises\<close>: \<^verbatim>\<open>runLighthouse(u).catch((err) => ({ url: u, error: err.message }))\<close>.
  The object of the handler has no score at all.
\<close>

definition job_batch :: "url_api \<Rightarrow> world \<Rightarrow> string \<Rightarrow> sys \<Rightarrow> audit_result \<times> sys" where
  "job_batch new_URL W u st =
     (case runLighthouse_batch new_URL W u st of
        (Inl err, st') \<Rightarrow>
          (\<lparr>url = u, Performance = Absent, Accessibility = Absent, BestPractices = Absent,
            SEO = Absent, error = Some (message err)\<rparr>, st')
      | (Inr r, st') \<Rightarrow> (r, st'))"

text \<open>
  \<^verbatim>\<open>await Promise.all(batch.map(...))\<close>: the values of the promises in the order of the
  batch, whichever job ends first. The jobs of a batch run concurrently; the state is
  threaded through them in the order they are started, which fixes the call number of
  each and does not affect any job's value.
\<close>

fun run_batch :: "url_api \<Rightarrow> world \<Rightarrow> string list \<Rightarrow> sys \<Rightarrow> audit_result list \<times> sys" where
  "run_batch new_URL W [] st = ([], st)"
| "run_batch new_URL W (u # us) st =
     (case job_batch new_URL W u st of
        (r, st1) \<Rightarrow>
          (case run_batch new_URL W us st1 of
             (rs, st2) \<Rightarrow> (r # rs, st2)))"

text \<open>The second loop, \<^verbatim>\<open>for (const batch of batches)\<close>, with \<^verbatim>\<open>results\<close> as accumulator.\<close>

fun run_batches ::
  "url_api \<Rightarrow> world \<Rightarrow> string list list \<Rightarrow> audit_result list \<Rightarrow> sys \<Rightarrow>
     audit_result list \<times> sys" where
  "run_batches new_URL W [] results st = (results, st)"
| "run_batches new_URL W (b # bs) results st =
     (case run_batch new_URL W b st of
        (batchResults, st') \<Rightarrow> run_batches new_URL W bs (results @ batchResults) st')"

definition runInBatches ::
  "url_api \<Rightarrow> world \<Rightarrow> string list \<Rightarrow> nat \<Rightarrow> sys \<Rightarrow> (audit_result list \<times> sys) option" where
  "runInBatches new_URL W us batchSize st =
     (case make_batches us batchSize 0 [] of
        None \<Rightarrow> None
      | Some batches \<Rightarrow> Some (run_batches new_URL W batches [] st))"

section \<open>The summary file\<close>

subsection \<open>\<^verbatim>\<open>generateCSV\<close> of \<^verbatim>\<open>index.js\<close>\<close>

definition csv_header :: string where
  "csv_header = ''URL,Performance,Accessibility,BestPractices,SEO,Error''"

definition csv_row :: "audit_result \<Rightarrow> string" where
  "csv_row r =
     [CHR 0x22] @ url r @ [CHR 0x22] @ '','' @ score_or_empty (Performance r) @ '','' @
     score_or_empty (Accessibility r) @ '','' @ score_or_empty (BestPractices r) @ '','' @
     score_or_empty (SEO r) @ '','' @ [CHR 0x22] @ error_or_empty (error r) @ [CHR 0x22]"

definition generateCSV ::
  "string \<Rightarrow> audit_result list \<Rightarrow> fs_state \<Rightarrow> js_error + (string \<times> fs_state)" where
  "generateCSV output results fs =
     (let header = csv_header;
          rows = map csv_row results;
          filename = output @ ''.csv''
      in case writeFileSync fs filename (join_nl (header # rows)) of
           Inl e \<Rightarrow> Inl e
         | Inr fs' \<Rightarrow> Inr (filename, fs'))"

subsection \<open>The summary of the batch script\<close>

definition csv_header_batch :: string where
  "csv_header_batch = ''URL,Performance,Accessibility,BestPractices,SEO''"

definition csv_row_batch :: "audit_result \<Rightarrow> string" where
  "csv_row_batch r =
     [CHR 0x22] @ url r @ [CHR 0x22] @ '','' @ score_or_empty (Performance r) @ '','' @
     score_or_empty (Accessibility r) @ '','' @ score_or_empty (BestPractices r) @ '','' @
     score_or_empty (SEO r)"

definition write_summary_batch :: "audit_result list \<Rightarrow> fs_state \<Rightarrow> js_error + fs_state" where
  "write_summary_batch results fs =
     (let header = csv_header_batch;
          rows = map csv_row_batch results
      in writeFileSync fs ''lighthouse-results.csv'' (join_nl (header # rows)))"

section \<open>The two programs\<close>

subsection \<open>\<^verbatim>\<open>index.js\<close>\<close>

text \<open>The command line options that reach the code below.\<close>

record options =
  opt_output :: string
  opt_urls :: string
  opt_retries :: int

definition ensureOutputDir :: "fs_state \<Rightarrow> fs_state" where
  "ensureOutputDir fs = (if \<not> existsSync fs ''reports'' then mkdirSync fs ''reports'' else fs)"

text \<open>
  How \<^verbatim>\<open>main()\<close> ends: \<^verbatim>\<open>process.exit\<close> is called with a code, the promise is fulfilled,
  or it is rejected with an error.
\<close>

datatype ending = Exit nat | Fulfilled | Rejected js_error

text \<open>
  \<^verbatim>\<open>main\<close>. The default URLs are the script's own, \<open>defaultUrls\<close>. An \<^verbatim>\<open>undefined\<close> among
  the results makes \<^verbatim>\<open>r.url\<close> in \<^verbatim>\<open>generateCSV\<close> throw.
\<close>

definition main :: "url_api \<Rightarrow> world \<Rightarrow> options \<Rightarrow> sys \<Rightarrow> ending \<times> sys" where
  "main new_URL W opts st =
     (case loadUrls new_URL defaultUrls (opt_urls opts) (disk st) of
        Inl e \<Rightarrow> (Rejected e, st)
      | Inr us \<Rightarrow>
          if length us = 0 then (Exit 1, st)
          else
            (let st1 = st\<lparr>disk := ensureOutputDir (disk st)\<rparr> in
             case runAllTests new_URL W (opt_retries opts) us st1 of
               (results, st2) \<Rightarrow>
                 (case those results of
                    None \<Rightarrow> (Rejected (type_error_reading ''url''), st2)
                  | Some rs \<Rightarrow>
                      (case generateCSV (opt_output opts) rs (disk st2) of
                         Inl e \<Rightarrow> (Rejected e, st2)
                       | Inr (csvFile, fs') \<Rightarrow> (Fulfilled, st2\<lparr>disk := fs'\<rparr>)))))"

text \<open>
  The program: \<^verbatim>\<open>main().catch(error => { ...; process.exit(1); })\<close>. The result is the
  exit code of the process and the final state.
\<close>

definition run_index :: "url_api \<Rightarrow> world \<Rightarrow> options \<Rightarrow> sys \<Rightarrow> nat \<times> sys" where
  "run_index new_URL W opts st =
     (case main new_URL W opts st of
        (Exit n, st') \<Rightarrow> (n, st')
      | (Fulfilled, st') \<Rightarrow> (0, st')
      | (Rejected e, st') \<Rightarrow> (1, st'))"

subsection \<open>The batch script\<close>

text \<open>
  The statements of the module in order: the URLs, the folder \<^verbatim>\<open>reports\<close> (the very
  statement that is the body of \<^verbatim>\<open>ensureOutputDir\<close> in \<^verbatim>\<open>index.js\<close>), then the function
  that runs the batches (of size 1) and writes the summary. An error thrown at the top
  level or in that function ends the process with code 1.
\<close>

definition run_batch_script :: "url_api \<Rightarrow> world \<Rightarrow> sys \<Rightarrow> (nat \<times> sys) option" where
  "run_batch_script new_URL W st =
     (case urls_batch (disk st) of
        Inl e \<Rightarrow> Some (1, st)
      | Inr us \<Rightarrow>
          (let st1 = st\<lparr>disk := ensureOutputDir (disk st)\<rparr> in
           case runInBatches new_URL W us 1 st1 of
             None \<Rightarrow> None
           | Some (results, st2) \<Rightarrow>
               (case write_summary_batch results (disk st2) of
                  Inl e \<Rightarrow> Some (1, st2)
                | Inr fs' \<Rightarrow> Some (0, st2\<lparr>disk := fs'\<rparr>))))"

section \<open>Notions used in the statements\<close>




subsection \<open>Sample inputs\<close>

text \<open>
  A clock reading, a browser whose \<^verbatim>\<open>kill\<close> succeeds, a world in which the engine throws
  on every call, one in which it throws an error with the empty message, one in which the browser cannot be launched and one in which every
  audit succeeds, two file systems, the state
  a run starts in, the options of a run without flags, and the result of a successful audit.
\<close>

definition sample_now :: string where
  "sample_now = ''2025-01-01T10:21:55.123Z''"

definition sample_browser :: chrome where
  "sample_browser = \<lparr>port = 9222, kill_result = None\<rparr>"

definition engine_throws :: world where
  "engine_throws k =
     \<lparr>launch_result = Inr sample_browser, lighthouse_result = Inl (Error ''boom''),
      clock = sample_now\<rparr>"


definition launch_throws :: world where
  "launch_throws k =
     \<lparr>launch_result = Inl (Error ''spawn ENOENT''), lighthouse_result = Inr None,
      clock = sample_now\<rparr>"

definition sample_report :: runner_result where
  "sample_report =
     \<lparr>report_json = ''{}'', report_html = ''<html></html>'', performance = Some 90,
      accessibility = Some 95, best_practices = Some 100, seo = Some 88\<rparr>"

definition engine_succeeds :: world where
  "engine_succeeds k =
     \<lparr>launch_result = Inr sample_browser, lighthouse_result = Inr (Some sample_report),
      clock = sample_now\<rparr>"

definition empty_disk :: fs_state where
  "empty_disk = \<lparr>files = Map.empty, dirs = {}\<rparr>"

definition disk_with_urls :: "string \<Rightarrow> fs_state" where
  "disk_with_urls content = \<lparr>files = [''urls.txt'' \<mapsto> content], dirs = {}\<rparr>"

definition fresh :: "fs_state \<Rightarrow> sys" where
  "fresh fs = \<lparr>disk = fs, trace = [], calls = 0\<rparr>"

definition sample_options :: options where
  "sample_options = \<lparr>opt_output = ''lighthouse-results'', opt_urls = ''urls.txt'', opt_retries = 2\<rparr>"

definition sample_result :: audit_result where
  "sample_result =
     \<lparr>url = ''https://example.com'', Performance = Num 90, Accessibility = Num 95,
      BestPractices = Num 100, SEO = Num 88, error = None\<rparr>"

section \<open>The audit call\<close>

subsection \<open>What \<^verbatim>\<open>runLighthouse\<close> returns\<close>

lemma try_result:
  "runLighthouse_try new_URL w k u st = (out, cv, st1) \<Longrightarrow>
     calls st1 = calls st \<and>
     cv = (case launch_result w of Inl e \<Rightarrow> None | Inr c \<Rightarrow> Some c) \<and>
     trace st1 = trace st @ (case launch_result w of Inl e \<Rightarrow> [] | Inr c \<Rightarrow> [Launch k, Audit k u]) \<and>
     (case out of Inl e \<Rightarrow> True | Inr r \<Rightarrow> url r = u \<and> error r = None)"
  by (auto simp: runLighthouse_try_def Let_def split: sum.splits option.splits)


lemma runLighthouse_Inr:
  "fst (runLighthouse new_URL W u st) = Inr r \<Longrightarrow>
     url r = u \<and> (error r = None \<or> (\<exists>m. r = failure u m))"
  by (auto simp: runLighthouse_def Let_def failure_def split: prod.splits option.splits sum.splits dest!: try_result)


lemma runLighthouse_kill_throws:
  "launch_result (W (calls st)) = Inr c \<Longrightarrow> kill_result c = Some e \<Longrightarrow>
     fst (runLighthouse new_URL W u st) = Inl e"
  by (auto simp: runLighthouse_def runLighthouse_try_def Let_def
           split: prod.splits option.splits sum.splits)

lemma runLighthouse_launch_throws:
  "launch_result (W (calls st)) = Inl e \<Longrightarrow>
     fst (runLighthouse new_URL W u st) = Inr (failure u (message e))"
  by (simp add: runLighthouse_def runLighthouse_try_def Let_def)

lemma runLighthouse_engine_throws:
  "launch_result (W (calls st)) = Inr c \<Longrightarrow> kill_result c = None \<Longrightarrow>
   lighthouse_result (W (calls st)) = Inl e \<Longrightarrow>
     fst (runLighthouse new_URL W u st) = Inr (failure u (message e))"
  by (simp add: runLighthouse_def runLighthouse_try_def Let_def)

lemma runLighthouse_returns:
  "\<forall>c. launch_result (W (calls st)) = Inr c \<longrightarrow> kill_result c = None \<Longrightarrow>
     \<exists>r. fst (runLighthouse new_URL W u st) = Inr r"
  by (auto simp: runLighthouse_def runLighthouse_try_def Let_def
           split: prod.splits option.splits sum.splits)

lemma runLighthouse_try_throws:
  assumes "fst (runLighthouse_try new_URL (W (calls st)) (calls st) u
                  (st\<lparr>calls := Suc (calls st)\<rparr>)) = Inl e"
    and "\<forall>c. launch_result (W (calls st)) = Inr c \<longrightarrow> kill_result c = None"
  shows "fst (runLighthouse new_URL W u st) = Inr (failure u (message e))"
proof -
  obtain out cv st1 where
    t: "runLighthouse_try new_URL (W (calls st)) (calls st) u (st\<lparr>calls := Suc (calls st)\<rparr>) =
          (out, cv, st1)"
    by (cases "runLighthouse_try new_URL (W (calls st)) (calls st) u (st\<lparr>calls := Suc (calls st)\<rparr>)")
  with assms(1) have out: "out = Inl e" by simp
  from try_result [OF t]
  have cv: "cv = (case launch_result (W (calls st)) of Inl e \<Rightarrow> None | Inr c \<Rightarrow> Some c)"
    by simp
  show ?thesis
  proof (cases cv)
    case None
    with t out show ?thesis by (simp add: runLighthouse_def Let_def)
  next
    case (Some c)
    with cv have "launch_result (W (calls st)) = Inr c" by (auto split: sum.splits)
    with assms(2) have "kill_result c = None" by blast
    with t out Some show ?thesis by (simp add: runLighthouse_def Let_def)
  qed
qed

lemma runLighthouse_try_returns:
  assumes "fst (runLighthouse_try new_URL (W (calls st)) (calls st) u
                  (st\<lparr>calls := Suc (calls st)\<rparr>)) = Inr x"
    and "\<forall>c. launch_result (W (calls st)) = Inr c \<longrightarrow> kill_result c = None"
  shows "fst (runLighthouse new_URL W u st) = Inr x \<and> error x = None"
proof -
  obtain out cv st1 where
    t: "runLighthouse_try new_URL (W (calls st)) (calls st) u (st\<lparr>calls := Suc (calls st)\<rparr>) =
          (out, cv, st1)"
    by (cases "runLighthouse_try new_URL (W (calls st)) (calls st) u (st\<lparr>calls := Suc (calls st)\<rparr>)")
  with assms(1) have out: "out = Inr x" by simp
  from try_result [OF t] out
  have cv: "cv = (case launch_result (W (calls st)) of Inl e \<Rightarrow> None | Inr c \<Rightarrow> Some c)"
    and x: "error x = None"
    by simp_all
  show ?thesis
  proof (cases cv)
    case None
    with t out x show ?thesis by (simp add: runLighthouse_def Let_def)
  next
    case (Some c)
    with cv have "launch_result (W (calls st)) = Inr c" by (auto split: sum.splits)
    with assms(2) have "kill_result c = None" by blast
    with t out Some x show ?thesis by (simp add: runLighthouse_def Let_def)
  qed
qed

lemma sample_try:
  "fst (runLighthouse_try sample_URL (engine_succeeds k) k ''https://example.com''
          \<lparr>disk = \<lparr>files = fl, dirs = {''reports''}\<rparr>, trace = tr, calls = n\<rparr>) = Inr sample_result"
  by (simp add: runLighthouse_try_def engine_succeeds_def sample_browser_def
        Let_def safeName_def sample_URL_def writeFileSync_def writable_def
        dots_to_underscores_def stamp_of_def sample_now_def sample_report_def sample_result_def
        score_or_NA_def)

lemma runLighthouse_batch_engine_throws:
  "launch_result (W (calls st)) = Inr c \<Longrightarrow> lighthouse_result (W (calls st)) = Inl e \<Longrightarrow>
     fst (runLighthouse_batch new_URL W u st) = Inl e \<and>
     fst (job_batch new_URL W u st) =
       \<lparr>url = u, Performance = Absent, Accessibility = Absent, BestPractices = Absent,
        SEO = Absent, error = Some (message e)\<rparr>"
  by (simp add: job_batch_def runLighthouse_batch_def Let_def)

text \<open>
  C4, as the code has it. In \<^verbatim>\<open>index.js\<close>, when \<^verbatim>\<open>chrome.kill()\<close> does not throw,
  \<^verbatim>\<open>runLighthouse\<close> returns an object for the URL and raises nothing: the object has
  \<^verbatim>\<open>error: null\<close>, or it is the failure object, all four scores \<^verbatim>\<open>"N/A"\<close>; and it is the
  failure object carrying the message of the error whenever \<^verbatim>\<open>launch\<close>, the engine or any
  other step of the \<^verbatim>\<open>try\<close> block throws, and the object the \<^verbatim>\<open>try\<close> block returns,
  without error, when nothing throws. The batch script's \<^verbatim>\<open>runLighthouse\<close> has no
  \<^verbatim>\<open>try\<close>: an error of the engine leaves it as an exception, which the \<^verbatim>\<open>.catch\<close> of
  \<^verbatim>\<open>runInBatches\<close> turns into an object with the URL and the message and no score.
\<close>

theorem runLighthouse_captures_failures:
  assumes "\<forall>c. launch_result (W (calls st)) = Inr c \<longrightarrow> kill_result c = None"
  shows "\<exists>r. fst (runLighthouse new_URL W u st) = Inr r \<and> url r = u \<and>
             (error r = None \<or> (\<exists>m. r = failure u m)) \<and>
             (\<forall>e. fst (runLighthouse_try new_URL (W (calls st)) (calls st) u
                          (st\<lparr>calls := Suc (calls st)\<rparr>)) = Inl e \<longrightarrow>
                  r = failure u (message e)) \<and>
             (\<forall>x. fst (runLighthouse_try new_URL (W (calls st)) (calls st) u
                          (st\<lparr>calls := Suc (calls st)\<rparr>)) = Inr x \<longrightarrow>
                  r = x \<and> error r = None) \<and>
             (\<forall>e. launch_result (W (calls st)) = Inl e \<longrightarrow> r = failure u (message e)) \<and>
             (\<forall>c e. launch_result (W (calls st)) = Inr c \<and>
                    lighthouse_result (W (calls st)) = Inl e \<longrightarrow>
                  r = failure u (message e) \<and>
                  fst (runLighthouse_batch new_URL W u st) = Inl e \<and>
                  fst (job_batch new_URL W u st) =
                    \<lparr>url = u, Performance = Absent, Accessibility = Absent,
                     BestPractices = Absent, SEO = Absent, error = Some (message e)\<rparr>)"
proof -
  from runLighthouse_returns [where W = W and st = st, OF assms] obtain r where
    r: "fst (runLighthouse new_URL W u st) = Inr r" by blast
  from runLighthouse_Inr [OF r] have "url r = u" "error r = None \<or> (\<exists>m. r = failure u m)"
    by simp_all
  moreover have "\<forall>e. fst (runLighthouse_try new_URL (W (calls st)) (calls st) u
                          (st\<lparr>calls := Suc (calls st)\<rparr>)) = Inl e \<longrightarrow>
                  r = failure u (message e)"
  proof (intro allI impI)
    fix e
    assume "fst (runLighthouse_try new_URL (W (calls st)) (calls st) u
                   (st\<lparr>calls := Suc (calls st)\<rparr>)) = Inl e"
    from runLighthouse_try_throws [where W = W and st = st and new_URL = new_URL and u = u, OF this assms] r show "r = failure u (message e)" by simp
  qed
  moreover have "\<forall>x. fst (runLighthouse_try new_URL (W (calls st)) (calls st) u
                          (st\<lparr>calls := Suc (calls st)\<rparr>)) = Inr x \<longrightarrow>
                  r = x \<and> error r = None"
  proof (intro allI impI)
    fix x
    assume "fst (runLighthouse_try new_URL (W (calls st)) (calls st) u
                   (st\<lparr>calls := Suc (calls st)\<rparr>)) = Inr x"
    from runLighthouse_try_returns [where W = W and st = st and new_URL = new_URL and u = u, OF this assms] r
    show "r = x \<and> error r = None" by simp
  qed
  moreover have "\<forall>e. launch_result (W (calls st)) = Inl e \<longrightarrow> r = failure u (message e)"
    using r by (auto dest: runLighthouse_launch_throws [where W = W and st = st and new_URL = new_URL and u = u])
  moreover have "\<forall>c e. launch_result (W (calls st)) = Inr c \<and>
                    lighthouse_result (W (calls st)) = Inl e \<longrightarrow>
                  r = failure u (message e) \<and>
                  fst (runLighthouse_batch new_URL W u st) = Inl e \<and>
                  fst (job_batch new_URL W u st) =
                    \<lparr>url = u, Performance = Absent, Accessibility = Absent,
                     BestPractices = Absent, SEO = Absent, error = Some (message e)\<rparr>"
  proof (intro allI impI, elim conjE)
    fix c e
    assume c: "launch_result (W (calls st)) = Inr c" and e: "lighthouse_result (W (calls st)) = Inl e"
    from assms c have "kill_result c = None" by blast
    from runLighthouse_engine_throws [where W = W and st = st and new_URL = new_URL and u = u, OF c this e] r
    have "r = failure u (message e)" by simp
    with runLighthouse_batch_engine_throws [where W = W and st = st and new_URL = new_URL and u = u, OF c e]
    show "r = failure u (message e) \<and>
                  fst (runLighthouse_batch new_URL W u st) = Inl e \<and>
                  fst (job_batch new_URL W u st) =
                    \<lparr>url = u, Performance = Absent, Accessibility = Absent,
                     BestPractices = Absent, SEO = Absent, error = Some (message e)\<rparr>"
      by simp
  qed
  ultimately show ?thesis using r by blast
qed

text \<open>
  Witness: the engine throws, or the browser cannot be launched, and the failure object
  comes back with the message; the engine succeeds, the folder \<^verbatim>\<open>reports\<close> exists, and
  the object holds the four scores and no error.
\<close>

theorem runLighthouse_captures_failures_witness:
  "fst (runLighthouse sample_URL engine_throws ''http://a.b'' (fresh empty_disk)) =
     Inr \<lparr>url = ''http://a.b'', Performance = NA, Accessibility = NA, BestPractices = NA,
          SEO = NA, error = Some ''boom''\<rparr> \<and>
   fst (runLighthouse sample_URL launch_throws ''http://a.b'' (fresh empty_disk)) =
     Inr \<lparr>url = ''http://a.b'', Performance = NA, Accessibility = NA, BestPractices = NA,
          SEO = NA, error = Some ''spawn ENOENT''\<rparr> \<and>
   fst (runLighthouse sample_URL engine_succeeds ''https://example.com''
          (fresh \<lparr>files = Map.empty, dirs = {''reports''}\<rparr>)) =
     Inr \<lparr>url = ''https://example.com'', Performance = Num 90, Accessibility = Num 95,
          BestPractices = Num 100, SEO = Num 88, error = None\<rparr>"
proof -
  have k1: "\<forall>c. launch_result (engine_throws (calls (fresh empty_disk))) = Inr c \<longrightarrow> kill_result c = None"
    by (simp add: engine_throws_def sample_browser_def)
  from runLighthouse_captures_failures [where W = engine_throws and st = "fresh empty_disk"
      and new_URL = sample_URL and u = "''http://a.b''", OF k1]
  obtain r where r: "fst (runLighthouse sample_URL engine_throws ''http://a.b'' (fresh empty_disk)) = Inr r"
    and e: "\<forall>c e. launch_result (engine_throws (calls (fresh empty_disk))) = Inr c \<and>
                    lighthouse_result (engine_throws (calls (fresh empty_disk))) = Inl e \<longrightarrow>
                  r = failure ''http://a.b'' (message e) \<and>
                  fst (runLighthouse_batch sample_URL engine_throws ''http://a.b'' (fresh empty_disk)) = Inl e \<and>
                  fst (job_batch sample_URL engine_throws ''http://a.b'' (fresh empty_disk)) =
                    \<lparr>url = ''http://a.b'', Performance = Absent, Accessibility = Absent,
                     BestPractices = Absent, SEO = Absent, error = Some (message e)\<rparr>"
    by blast
  from e have "r = failure ''http://a.b'' ''boom''"
    by (simp add: engine_throws_def)
  with r have 1: "fst (runLighthouse sample_URL engine_throws ''http://a.b'' (fresh empty_disk)) =
     Inr \<lparr>url = ''http://a.b'', Performance = NA, Accessibility = NA, BestPractices = NA,
          SEO = NA, error = Some ''boom''\<rparr>"
    by (simp add: failure_def)
  have k2: "\<forall>c. launch_result (launch_throws (calls (fresh empty_disk))) = Inr c \<longrightarrow> kill_result c = None"
    by (simp add: launch_throws_def)
  from runLighthouse_captures_failures [where W = launch_throws and st = "fresh empty_disk"
      and new_URL = sample_URL and u = "''http://a.b''", OF k2]
  obtain r2 where r2: "fst (runLighthouse sample_URL launch_throws ''http://a.b'' (fresh empty_disk)) = Inr r2"
    and e2: "\<forall>e. launch_result (launch_throws (calls (fresh empty_disk))) = Inl e \<longrightarrow>
                  r2 = failure ''http://a.b'' (message e)"
    by blast
  from e2 have "r2 = failure ''http://a.b'' ''spawn ENOENT''"
    by (simp add: launch_throws_def)
  with r2 have 2: "fst (runLighthouse sample_URL launch_throws ''http://a.b'' (fresh empty_disk)) =
     Inr \<lparr>url = ''http://a.b'', Performance = NA, Accessibility = NA, BestPractices = NA,
          SEO = NA, error = Some ''spawn ENOENT''\<rparr>"
    by (simp add: failure_def)
  let ?st = "fresh \<lparr>files = Map.empty, dirs = {''reports''}\<rparr>"
  have k3: "\<forall>c. launch_result (engine_succeeds (calls ?st)) = Inr c \<longrightarrow> kill_result c = None"
    by (simp add: engine_succeeds_def sample_browser_def)
  from runLighthouse_captures_failures [where W = engine_succeeds and st = ?st
      and new_URL = sample_URL and u = "''https://example.com''", OF k3]
  obtain r3 where r3: "fst (runLighthouse sample_URL engine_succeeds ''https://example.com'' ?st) = Inr r3"
    and e3: "\<forall>x. fst (runLighthouse_try sample_URL (engine_succeeds (calls ?st)) (calls ?st)
                       ''https://example.com'' (?st\<lparr>calls := Suc (calls ?st)\<rparr>)) = Inr x \<longrightarrow>
                  r3 = x \<and> error r3 = None"
    by blast
  have "fst (runLighthouse_try sample_URL (engine_succeeds (calls ?st)) (calls ?st)
                       ''https://example.com'' (?st\<lparr>calls := Suc (calls ?st)\<rparr>)) = Inr sample_result"
    by (simp add: fresh_def sample_try)
  with e3 have "r3 = sample_result" by blast
  with r3 have 3: "fst (runLighthouse sample_URL engine_succeeds ''https://example.com'' ?st) =
     Inr \<lparr>url = ''https://example.com'', Performance = Num 90, Accessibility = Num 95,
          BestPractices = Num 100, SEO = Num 88, error = None\<rparr>"
    by (simp add: sample_result_def)
  from 1 2 3 show ?thesis by blast
qed

text \<open>
  C4 as stated fails on the batch script: when the engine throws, its \<^verbatim>\<open>runLighthouse\<close>
  raises the error instead of returning an object.
\<close>

theorem batch_runLighthouse_raises:
  "fst (runLighthouse_batch sample_URL engine_throws ''http://a.b'' (fresh empty_disk)) =
     Inl (Error ''boom'')"
  by (simp add: runLighthouse_batch_def engine_throws_def sample_browser_def Let_def)

subsection \<open>Launching and killing the browser\<close>

text \<open>
  In \<^verbatim>\<open>index.js\<close> every launch is followed by exactly one kill before the function is
  left, on every path: the events of a call are none when \<^verbatim>\<open>launch\<close> throws, and launch,
  audit, kill otherwise.
\<close>

lemma runLighthouse_trace:
  "trace (snd (runLighthouse new_URL W u st)) =
     trace st @ (case launch_result (W (calls st)) of
                   Inl e \<Rightarrow> []
                 | Inr c \<Rightarrow> [Launch (calls st), Audit (calls st) u, Kill (calls st)])"
  by (auto simp: runLighthouse_def Let_def split: prod.splits option.splits sum.splits dest!: try_result)

text \<open>
  In the batch script the kill is missing on the path where the engine throws.
\<close>

lemma runLighthouse_batch_trace:
  "trace (snd (runLighthouse_batch new_URL W u st)) =
     trace st @ (case launch_result (W (calls st)) of
                   Inl e \<Rightarrow> []
                 | Inr c \<Rightarrow>
                     (case lighthouse_result (W (calls st)) of
                        Inl e \<Rightarrow> [Launch (calls st), Audit (calls st) u]
                      | Inr res \<Rightarrow> [Launch (calls st), Audit (calls st) u, Kill (calls st)]))"
  by (auto simp: runLighthouse_batch_def Let_def split: prod.splits option.splits sum.splits)

text \<open>
  C5. Every launch of a browser is to be paired with exactly one kill before
  \<^verbatim>\<open>runLighthouse\<close> is left, on every path. So it is in \<^verbatim>\<open>index.js\<close>, by the lemma on its
  events above; in the batch script it is not: here the engine throws, the call is left
  by the exception, and the browser it launched is never killed.
\<close>

theorem batch_browser_never_killed:
  "runLighthouse_batch sample_URL engine_throws ''http://a.b'' (fresh empty_disk) =
     (Inl (Error ''boom''),
      \<lparr>disk = empty_disk, trace = [Launch 0, Audit 0 ''http://a.b''], calls = 1\<rparr>)"
  by (simp add: runLighthouse_batch_def engine_throws_def sample_browser_def Let_def fresh_def)

section \<open>The retry bound\<close>










section \<open>One result per URL, in input order\<close>

lemma retry_from_Some:
  "a \<le> R + 1 \<Longrightarrow>
     \<exists>r. fst (runLighthouseWithRetry_from new_URL W u R a s) = Some r \<and> url r = u"
proof (induction new_URL W u R a s rule: runLighthouseWithRetry_from.induct)
  case (1 new_URL W u maxRetries attempt st)
  obtain out st' where r: "runLighthouse new_URL W u st = (out, st')"
    by (cases "runLighthouse new_URL W u st")
  show ?case
  proof (cases out)
    case (Inl e)
    show ?thesis
    proof (cases "attempt > maxRetries")
      case True
      with r Inl "1.prems" show ?thesis
        by (subst runLighthouseWithRetry_from.simps) (simp add: failure_def)
    next
      case False
      then have "attempt + 1 \<le> maxRetries + 1" by simp
      from "1.IH"(1) [OF "1.prems" r [symmetric] Inl False this]
      show ?thesis
        using r Inl False "1.prems"
        by (subst runLighthouseWithRetry_from.simps) simp
    qed
  next
    case (Inr result)
    from r Inr have "fst (runLighthouse new_URL W u st) = Inr result" by simp
    from runLighthouse_Inr [OF this] have u: "url result = u" by simp
    show ?thesis
    proof (cases "truthy (error result) \<and> attempt \<le> maxRetries")
      case True
      then have "attempt + 1 \<le> maxRetries + 1" by simp
      from "1.IH"(2) [OF "1.prems" r [symmetric] Inr _ True this] True
      show ?thesis
        using r Inr True "1.prems"
        by (subst runLighthouseWithRetry_from.simps) simp
    next
      case False
      with r Inr u "1.prems" show ?thesis
        by (subst runLighthouseWithRetry_from.simps) auto
    qed
  qed
qed

lemma retry_Some:
  "0 \<le> R \<Longrightarrow> \<exists>r. fst (runLighthouseWithRetry new_URL W u R s) = Some r \<and> url r = u"
  unfolding runLighthouseWithRetry_def by (rule retry_from_Some) simp

lemma runAllTests_from_acc:
  "runAllTests_from new_URL W r us acc st =
     (acc @ fst (runAllTests_from new_URL W r us [] st),
      snd (runAllTests_from new_URL W r us [] st))"
proof (induction us arbitrary: acc st)
  case Nil
  show ?case by simp
next
  case (Cons u us)
  obtain x st' where x: "runLighthouseWithRetry new_URL W u r st = (x, st')"
    by (cases "runLighthouseWithRetry new_URL W u r st")
  show ?case
    using Cons.IH [of "acc @ [x]" st'] Cons.IH [of "[x]" st'] x by simp
qed

lemma runAllTests_Nil: "runAllTests new_URL W r [] st = ([], st)"
  by (simp add: runAllTests_def)

lemma runAllTests_Cons:
  "runAllTests new_URL W r (u # us) st =
     (fst (runLighthouseWithRetry new_URL W u r st) #
        fst (runAllTests new_URL W r us (snd (runLighthouseWithRetry new_URL W u r st))),
      snd (runAllTests new_URL W r us (snd (runLighthouseWithRetry new_URL W u r st))))"
  unfolding runAllTests_def
  by (cases "runLighthouseWithRetry new_URL W u r st")
     (simp add: runAllTests_from_acc [of _ _ _ _ "[_]"])

lemma runAllTests_length: "length (fst (runAllTests new_URL W r us st)) = length us"
  by (induction us arbitrary: st) (simp_all add: runAllTests_Nil runAllTests_Cons)

lemma runAllTests_nth:
  "i < length us \<Longrightarrow>
     fst (runAllTests new_URL W r us st) ! i =
       fst (runLighthouseWithRetry new_URL W (us ! i) r (snd (runAllTests new_URL W r (take i us) st)))"
proof (induction us arbitrary: i st)
  case Nil
  then show ?case by simp
next
  case (Cons u us)
  show ?case
  proof (cases i)
    case 0
    then show ?thesis by (simp add: runAllTests_Cons runAllTests_Nil)
  next
    case (Suc j)
    with Cons.prems have "j < length us" by simp
    from Cons.IH [OF this] Suc show ?thesis
      by (simp add: runAllTests_Cons)
  qed
qed


lemma make_batches_total:
  "0 < batchSize \<Longrightarrow>
     \<exists>bs. make_batches us batchSize i acc = Some bs \<and> concat bs = concat acc @ drop i us"
proof (induction "length us - i" arbitrary: i acc rule: less_induct)
  case less
  show ?case
  proof (cases "i < length us")
    case False
    then show ?thesis by (subst make_batches.simps) simp
  next
    case True
    with less.prems have "length us - (i + batchSize) < length us - i" by simp
    from less.hyps [OF this less.prems, of "acc @ [take batchSize (drop i us)]"]
    obtain bs where bs: "make_batches us batchSize (i + batchSize) (acc @ [take batchSize (drop i us)]) = Some bs"
      "concat bs = concat (acc @ [take batchSize (drop i us)]) @ drop (i + batchSize) us"
      by blast
    have "take batchSize (drop i us) @ drop (i + batchSize) us = drop i us"
      by (metis add.commute append_take_drop_id drop_drop)
    with bs True show ?thesis
      by (subst make_batches.simps) simp
  qed
qed

lemma job_batch_url: "url (fst (job_batch new_URL W u st)) = u"
  by (auto simp: job_batch_def runLighthouse_batch_def scores_batch_def Let_def
           split: prod.splits sum.splits option.splits)

lemma run_batch_Cons:
  "run_batch new_URL W (u # us) st =
     (fst (job_batch new_URL W u st) #
        fst (run_batch new_URL W us (snd (job_batch new_URL W u st))),
      snd (run_batch new_URL W us (snd (job_batch new_URL W u st))))"
  by (simp split: prod.splits)

lemma run_batch_append:
  "run_batch new_URL W (xs @ ys) st =
     (fst (run_batch new_URL W xs st) @ fst (run_batch new_URL W ys (snd (run_batch new_URL W xs st))),
      snd (run_batch new_URL W ys (snd (run_batch new_URL W xs st))))"
  by (induction xs arbitrary: st) (simp_all add: run_batch_Cons del: run_batch.simps(2))

lemma run_batches_concat:
  "run_batches new_URL W bs acc st =
     (acc @ fst (run_batch new_URL W (concat bs) st), snd (run_batch new_URL W (concat bs) st))"
  by (induction bs arbitrary: acc st) (simp_all add: run_batch_append split: prod.splits)

lemma runInBatches_sequence:
  "0 < batchSize \<Longrightarrow> runInBatches new_URL W us batchSize st = Some (run_batch new_URL W us st)"
  using make_batches_total [of batchSize us 0 "[]"]
  by (auto simp: runInBatches_def run_batches_concat)

lemma run_batch_length: "length (fst (run_batch new_URL W us st)) = length us"
  by (induction us arbitrary: st) (simp_all add: run_batch_Cons del: run_batch.simps(2))

lemma run_batch_nth:
  "i < length us \<Longrightarrow>
     fst (run_batch new_URL W us st) ! i =
       fst (job_batch new_URL W (us ! i) (snd (run_batch new_URL W (take i us) st)))"
proof (induction us arbitrary: i st)
  case Nil
  then show ?case by simp
next
  case (Cons u us)
  show ?case
  proof (cases i)
    case 0
    then show ?thesis by (simp add: run_batch_Cons del: run_batch.simps(2))
  next
    case (Suc j)
    with Cons.prems have "j < length us" by simp
    from Cons.IH [OF this] Suc show ?thesis
      by (simp add: run_batch_Cons del: run_batch.simps(2))
  qed
qed

text \<open>
  C3. For a list of \<open>N\<close> URLs, \<^verbatim>\<open>runAllTests\<close> returns \<open>N\<close> results, and the result at index
  \<open>i\<close> is the object \<^verbatim>\<open>runLighthouseWithRetry\<close> returned for the URL at index \<open>i\<close>, called
  in the state the first \<open>i\<close> URLs left behind; its \<^verbatim>\<open>url\<close> is that URL (the retry count
  taken to be at least 0). For every batch size of at least 1, \<^verbatim>\<open>runInBatches\<close> ends and
  returns \<open>N\<close> results, the one at index \<open>i\<close> being the value of the job of the URL at
  index \<open>i\<close> and carrying that URL. Neither depends on which jobs succeed.
\<close>

theorem results_in_input_order:
  assumes "0 \<le> r" and "0 < batchSize"
  shows "length (fst (runAllTests new_URL W r us st)) = length us \<and>
         (\<forall>i<length us. \<exists>x.
            fst (runAllTests new_URL W r us st) ! i = Some x \<and> url x = us ! i \<and>
            fst (runLighthouseWithRetry new_URL W (us ! i) r
                   (snd (runAllTests new_URL W r (take i us) st))) = Some x) \<and>
         (\<exists>rs st'.
            runInBatches new_URL W us batchSize st = Some (rs, st') \<and> length rs = length us \<and>
            (\<forall>i<length us.
               url (rs ! i) = us ! i \<and>
               rs ! i = fst (job_batch new_URL W (us ! i)
                              (snd (run_batch new_URL W (take i us) st)))))"
proof (intro conjI allI impI)
  show "length (fst (runAllTests new_URL W r us st)) = length us"
    by (rule runAllTests_length)
next
  fix i assume i: "i < length us"
  from retry_Some [OF assms(1), of new_URL W "us ! i" "snd (runAllTests new_URL W r (take i us) st)"]
  obtain x where "fst (runLighthouseWithRetry new_URL W (us ! i) r
                   (snd (runAllTests new_URL W r (take i us) st))) = Some x" "url x = us ! i"
    by blast
  with runAllTests_nth [OF i, of new_URL W r st]
  show "\<exists>x. fst (runAllTests new_URL W r us st) ! i = Some x \<and> url x = us ! i \<and>
            fst (runLighthouseWithRetry new_URL W (us ! i) r
                   (snd (runAllTests new_URL W r (take i us) st))) = Some x"
    by simp
next
  show "\<exists>rs st'.
            runInBatches new_URL W us batchSize st = Some (rs, st') \<and> length rs = length us \<and>
            (\<forall>i<length us.
               url (rs ! i) = us ! i \<and>
               rs ! i = fst (job_batch new_URL W (us ! i)
                              (snd (run_batch new_URL W (take i us) st))))"
  proof (intro exI conjI allI impI)
    show "runInBatches new_URL W us batchSize st =
            Some (fst (run_batch new_URL W us st), snd (run_batch new_URL W us st))"
      using runInBatches_sequence [OF assms(2)] by simp
    show "length (fst (run_batch new_URL W us st)) = length us"
      by (rule run_batch_length)
  next
    fix i assume i: "i < length us"
    show "fst (run_batch new_URL W us st) ! i =
            fst (job_batch new_URL W (us ! i) (snd (run_batch new_URL W (take i us) st)))"
      by (rule run_batch_nth [OF i])
    then show "url (fst (run_batch new_URL W us st) ! i) = us ! i"
      by (simp add: job_batch_url)
  qed
qed


theorem results_in_input_order_witness:
  "(0::int) \<le> 2 \<and> (0::nat) < 2 \<and>
   length (fst (runAllTests sample_URL engine_throws 2 [''http://a.b'', ''http://a_b'']
                  (fresh empty_disk))) = 2 \<and>
   map_option url (fst (runAllTests sample_URL engine_throws 2 [''http://a.b'', ''http://a_b'']
                          (fresh empty_disk)) ! 0) = Some ''http://a.b'' \<and>
   map_option url (fst (runAllTests sample_URL engine_throws 2 [''http://a.b'', ''http://a_b'']
                          (fresh empty_disk)) ! 1) = Some ''http://a_b'' \<and>
   (\<exists>rs st'. runInBatches sample_URL engine_throws [''http://a.b'', ''http://a_b''] 2
                (fresh empty_disk) = Some (rs, st') \<and>
              length rs = 2 \<and> url (rs ! 0) = ''http://a.b'' \<and> url (rs ! 1) = ''http://a_b'')"
proof -
  let ?us = "[''http://a.b'', ''http://a_b'']"
  let ?seq = "fst (runAllTests sample_URL engine_throws 2 ?us (fresh empty_disk))"
  have p: "(0::int) \<le> 2" "(0::nat) < 2" by simp_all
  note T = results_in_input_order [OF p, where new_URL = sample_URL and W = engine_throws
      and us = ?us and st = "fresh empty_disk"]
  note len = T [THEN conjunct1]
    and nth = T [THEN conjunct2, THEN conjunct1, rule_format]
    and bat = T [THEN conjunct2, THEN conjunct2]
  have i: "(0::nat) < length ?us" "(1::nat) < length ?us" by simp_all
  from nth [OF i(1)] have s0: "map_option url (?seq ! 0) = Some ''http://a.b''" by auto
  from nth [OF i(2)] have s1: "map_option url (?seq ! 1) = Some ''http://a_b''" by auto
  from bat obtain rs st' where rs:
    "runInBatches sample_URL engine_throws ?us 2 (fresh empty_disk) = Some (rs, st')"
    "length rs = length ?us"
    "\<forall>i<length ?us. url (rs ! i) = ?us ! i \<and>
        rs ! i = fst (job_batch sample_URL engine_throws (?us ! i)
                       (snd (run_batch sample_URL engine_throws (take i ?us) (fresh empty_disk))))"
    by blast
  from rs(3) [rule_format, OF i(1), THEN conjunct1] have b0: "url (rs ! 0) = ''http://a.b''" by simp
  from rs(3) [rule_format, OF i(2), THEN conjunct1] have b1: "url (rs ! 1) = ''http://a_b''" by simp
  from len s0 s1 rs(1) rs(2) b0 b1 show ?thesis by simp
qed

section \<open>Loading and filtering the URLs\<close>

text \<open>
  \<^verbatim>\<open>loadUrls\<close> reads the file exactly when it does not exist, so it either returns the
  default URLs or throws; the batch script reads the file when it exists.
\<close>

lemma loadUrls_inverted:
  "loadUrls new_URL defaults path fs =
     (if existsSync fs path then Inr defaults else Inl (enoent path))"
  by (auto simp: loadUrls_def existsSync_def readFileSync_def)

lemma urlList_batch_reads_file:
  "files fs ''urls.txt'' = Some content \<Longrightarrow> urlList_batch fs = Inr (url_lines_batch content)"
  by (simp add: urlList_batch_def existsSync_def readFileSync_def)

lemma urls_batch_reads_file:
  assumes "files fs ''urls.txt'' = Some content"
  shows "urls_batch fs = Inr (url_lines_batch content)"
proof (cases "url_lines_batch content")
  case Nil
  with assms show ?thesis
    by (simp add: urls_batch_def urlList_batch_reads_file defaultUrls_batch_def)
next
  case (Cons l ls)
  with assms show ?thesis
    by (simp add: urls_batch_def urlList_batch_reads_file)
qed

text \<open>
  So a run of \<^verbatim>\<open>index.js\<close> in a directory without the URL file ends with code 1 and
  leaves everything as it was: the error of the read rejects \<^verbatim>\<open>main\<close>.
\<close>

lemma run_index_missing_file:
  "\<not> existsSync (disk st) (opt_urls opts) \<Longrightarrow> run_index new_URL W opts st = (1, st)"
  by (simp add: run_index_def main_def loadUrls_inverted)

lemma run_index_missing_file_example:
  "run_index new_URL W sample_options (fresh empty_disk) = (1, fresh empty_disk)"
  by (rule run_index_missing_file)
     (simp add: existsSync_def sample_options_def fresh_def empty_disk_def)

text \<open>
  C1. Loading is to dispatch on the presence of the URL file: parse it when it exists,
  return the default URLs without a read when it does not. \<^verbatim>\<open>loadUrls\<close> does the
  opposite in both cases: with a file \<^verbatim>\<open>urls.txt\<close> that holds one valid URL it returns the
  default URLs, not the URL of the file; with no file it reads, and throws the error of
  the read.
\<close>

theorem loadUrls_ignores_existing_file:
  "loadUrls new_URL defaultUrls ''urls.txt''
     \<lparr>files = [''urls.txt'' \<mapsto> ''https://example.com''], dirs = {}\<rparr> = Inr defaultUrls \<and>
   loadUrls new_URL defaultUrls ''urls.txt'' \<lparr>files = Map.empty, dirs = {}\<rparr> =
     Inl (enoent ''urls.txt'')"
  by (simp add: loadUrls_def existsSync_def readFileSync_def)

text \<open>
  C6, as the code has it. Of the trimmed lines of the content, the filter of \<^verbatim>\<open>index.js\<close>
  keeps exactly those that start with \<^verbatim>\<open>http\<close> and that \<^verbatim>\<open>new URL\<close> accepts; the filter of
  the batch script keeps exactly those that start with \<^verbatim>\<open>http\<close>, parsed or not, and
  they are the URLs the batch script runs on when the file exists.
\<close>

theorem kept_lines:
  "(l \<in> set (url_lines new_URL content) \<longleftrightarrow>
      l \<in> set (map trim (split_nl content)) \<and> startsWith_http l \<and> new_URL l \<noteq> None) \<and>
   (l \<in> set (url_lines_batch content) \<longleftrightarrow>
      l \<in> set (map trim (split_nl content)) \<and> startsWith_http l) \<and>
   (files fs ''urls.txt'' = Some content \<longrightarrow> urls_batch fs = Inr (url_lines_batch content))"
proof (intro conjI impI)
  show "l \<in> set (url_lines new_URL content) \<longleftrightarrow>
      l \<in> set (map trim (split_nl content)) \<and> startsWith_http l \<and> new_URL l \<noteq> None"
    by (auto simp: url_lines_def validateUrl_def split: option.splits)
  show "l \<in> set (url_lines_batch content) \<longleftrightarrow>
      l \<in> set (map trim (split_nl content)) \<and> startsWith_http l"
    by (auto simp: url_lines_batch_def)
next
  assume "files fs ''urls.txt'' = Some content"
  then show "urls_batch fs = Inr (url_lines_batch content)"
    by (rule urls_batch_reads_file)
qed

text \<open>Witness: a file of two lines, of which the batch script keeps the second, trimmed.\<close>

theorem kept_lines_witness:
  "urls_batch (disk_with_urls (''not-a-url'' @ [CHR 0x0A] @ '' http://a.b '')) = Inr [''http://a.b'']"
proof -
  let ?c = "''not-a-url'' @ [CHR 0x0A] @ '' http://a.b ''"
  have "files (disk_with_urls ?c) ''urls.txt'' = Some ?c"
    by (simp add: disk_with_urls_def)
  with kept_lines [of _ _ ?c "disk_with_urls ?c"]
  have "urls_batch (disk_with_urls ?c) = Inr (url_lines_batch ?c)" by blast
  then show ?thesis
    by (simp add: url_lines_batch_def trim_def is_space_def startsWith_http_def)
qed

text \<open>
  C6 as stated fails on the batch script: the line \<^verbatim>\<open>http\<close> is kept although it does not
  parse as a URL.
\<close>

theorem batch_keeps_unparsable_line:
  "urls_batch (disk_with_urls ''http'') = Inr [''http''] \<and> \<not> validateUrl sample_URL ''http''"
  by (simp add: urls_batch_def urlList_batch_def existsSync_def readFileSync_def
        disk_with_urls_def url_lines_batch_def trim_def is_space_def startsWith_http_def
        validateUrl_def sample_URL_def defaultUrls_batch_def)

section \<open>Report names\<close>

lemma dots_to_underscores_inj:
  "CHR ''_'' \<notin> set xs \<Longrightarrow> CHR ''_'' \<notin> set ys \<Longrightarrow>
     dots_to_underscores xs = dots_to_underscores ys \<Longrightarrow> xs = ys"
proof (induction xs arbitrary: ys)
  case Nil
  then show ?case by (simp add: dots_to_underscores_def)
next
  case (Cons x xs)
  then obtain y ys' where ys: "ys = y # ys'"
    by (cases ys) (auto simp: dots_to_underscores_def)
  with Cons.prems have "x = y" "dots_to_underscores xs = dots_to_underscores ys'"
    by (auto simp: dots_to_underscores_def split: if_splits)
  with Cons ys show ?case by simp
qed

text \<open>
  C7, as the code has it. The name is a function of the URL and the clock reading: the
  host with every dot replaced by an underscore, two underscores, and the reading with
  every colon and dot replaced by a hyphen. For two URLs at the same reading the names
  are equal exactly when the hosts are equal after the replacement; so two different
  hosts without an underscore never get the same name.
\<close>

theorem safeName_distinct:
  assumes "new_URL u1 = Some p1" and "new_URL u2 = Some p2"
  shows "safeName new_URL now u1 = Inr (dots_to_underscores (hostname p1) @ ''__'' @ stamp_of now) \<and>
         (safeName new_URL now u1 = safeName new_URL now u2 \<longleftrightarrow>
            dots_to_underscores (hostname p1) = dots_to_underscores (hostname p2)) \<and>
         (CHR ''_'' \<notin> set (hostname p1) \<and> CHR ''_'' \<notin> set (hostname p2) \<and>
          hostname p1 \<noteq> hostname p2 \<longrightarrow>
            safeName new_URL now u1 \<noteq> safeName new_URL now u2)"
  using assms by (auto simp: safeName_def dest: dots_to_underscores_inj)

text \<open>Witness: the names of two hosts without underscore at one reading.\<close>

theorem safeName_distinct_witness:
  "sample_URL ''http://a.b'' = Some \<lparr>hostname = ''a.b''\<rparr> \<and>
   sample_URL ''https://example.com'' = Some \<lparr>hostname = ''example.com''\<rparr> \<and>
   safeName sample_URL sample_now ''http://a.b'' = Inr ''a_b__2025-01-01T10-21-55-123Z'' \<and>
   safeName sample_URL sample_now ''http://a.b'' \<noteq> safeName sample_URL sample_now ''https://example.com''"
proof -
  have 1: "sample_URL ''http://a.b'' = Some \<lparr>hostname = ''a.b''\<rparr>"
    and 2: "sample_URL ''https://example.com'' = Some \<lparr>hostname = ''example.com''\<rparr>"
    by (simp_all add: sample_URL_def)
  note T = safeName_distinct [where new_URL = sample_URL and now = sample_now, OF 1 2]
  from T [THEN conjunct1]
  have 3: "safeName sample_URL sample_now ''http://a.b'' = Inr ''a_b__2025-01-01T10-21-55-123Z''"
    by (simp add: dots_to_underscores_def stamp_of_def sample_now_def)
  have "CHR ''_'' \<notin> set (hostname \<lparr>hostname = ''a.b''\<rparr>) \<and>
        CHR ''_'' \<notin> set (hostname \<lparr>hostname = ''example.com''\<rparr>) \<and>
        hostname \<lparr>hostname = ''a.b''\<rparr> \<noteq> hostname \<lparr>hostname = ''example.com''\<rparr>"
    by simp
  with T [THEN conjunct2, THEN conjunct2]
  have 4: "safeName sample_URL sample_now ''http://a.b'' \<noteq>
           safeName sample_URL sample_now ''https://example.com''"
    by (rule mp)
  from 1 2 3 4 show ?thesis by blast
qed

text \<open>
  C7 as stated fails: the hosts \<^verbatim>\<open>a.b\<close> and \<^verbatim>\<open>a_b\<close> differ and get the same name at the
  same reading.
\<close>

theorem same_stamp_collision:
  "map_option hostname (sample_URL ''http://a.b'') \<noteq> map_option hostname (sample_URL ''http://a_b'') \<and>
   safeName sample_URL sample_now ''http://a.b'' = safeName sample_URL sample_now ''http://a_b''"
  by (simp add: sample_URL_def safeName_def dots_to_underscores_def)

section \<open>The summary\<close>

lemma digits_chars: "set (digits n) \<subseteq> set ''0123456789''"
proof (induction n rule: digits.induct)
  case (1 n)
  show ?case
  proof (cases "n < 10")
    case True
    then have "''0123456789'' ! n \<in> set ''0123456789''"
      by (intro nth_mem) simp
    with True show ?thesis by (subst digits.simps) simp
  next
    case False
    have "n mod 10 < length ''0123456789''" by simp
    then have "''0123456789'' ! (n mod 10) \<in> set ''0123456789''"
      by (rule nth_mem)
    with False "1.IH" show ?thesis by (subst digits.simps) simp
  qed
qed

lemma score_or_empty_no_newline: "CHR 0x0A \<notin> set (score_or_empty s)"
proof (cases s)
  case (Num n)
  have "CHR 0x0A \<notin> set (digits k)" for k
    using digits_chars [of k] by auto
  with Num show ?thesis by (simp add: number_text_def)
qed simp_all

lemma split_nl_line: "CHR 0x0A \<notin> set x \<Longrightarrow> split_nl x = [x]"
  by (induction x) auto

lemma split_nl_first: "CHR 0x0A \<notin> set x \<Longrightarrow> split_nl (x @ CHR 0x0A # rest) = x # split_nl rest"
  by (induction x) auto

lemma split_join:
  "xs \<noteq> [] \<Longrightarrow> \<forall>x\<in>set xs. CHR 0x0A \<notin> set x \<Longrightarrow> split_nl (join_nl xs) = xs"
  by (induction xs rule: join_nl.induct) (simp_all add: split_nl_line split_nl_first)

lemma csv_row_no_newline:
  "CHR 0x0A \<notin> set (url r) \<Longrightarrow> CHR 0x0A \<notin> set (error_or_empty (error r)) \<Longrightarrow>
     CHR 0x0A \<notin> set (csv_row r) \<and> CHR 0x0A \<notin> set (csv_row_batch r)"
  by (simp add: csv_row_def csv_row_batch_def score_or_empty_no_newline)

lemma writable_cwd: "writable fs ''lighthouse-results.csv''"
  by (simp add: writable_def)

lemma generateCSV_writes:
  "writable fs (base @ ''.csv'') \<Longrightarrow>
     generateCSV base results fs =
       Inr (base @ ''.csv'',
            fs\<lparr>files := (files fs)(base @ ''.csv'' \<mapsto> join_nl (csv_header # map csv_row results))\<rparr>)"
  by (simp add: generateCSV_def writeFileSync_def Let_def)

lemma write_summary_batch_writes:
  "write_summary_batch results fs =
     Inr (fs\<lparr>files := (files fs)(''lighthouse-results.csv'' \<mapsto>
                 join_nl (csv_header_batch # map csv_row_batch results))\<rparr>)"
  by (simp add: write_summary_batch_def writeFileSync_def writable_cwd Let_def)

lemma sample_row:
  "csv_row sample_result = [CHR 0x22] @ ''https://example.com'' @ [CHR 0x22] @ '',90,95,100,88,'' @ [CHR 0x22, CHR 0x22]"
  by (simp add: csv_row_def sample_result_def number_text_def digits.simps)

text \<open>
  C8, as the code has it. \<^verbatim>\<open>generateCSV\<close> (where the directory of the destination
  exists) and the batch script replace the content of the destination by the header, in
  \<^verbatim>\<open>index.js\<close> with the column \<^verbatim>\<open>Error\<close> and in the batch script without, followed by one
  row per result in order, joined by line feeds; where no URL and no error message holds
  a line feed, the lines of the file are the header and these rows. A row is the URL in
  double quotes, the four scores bare and, in \<^verbatim>\<open>index.js\<close>, the error in double quotes
  (empty when there is none). A score field is the decimal number for a number other
  than 0, \<^verbatim>\<open>N/A\<close> for the sentinel, and empty for a result that has no such score.
\<close>

theorem summary_written:
  "(writable fs (base @ ''.csv'') \<longrightarrow>
      generateCSV base results fs =
        Inr (base @ ''.csv'',
             fs\<lparr>files := (files fs)(base @ ''.csv'' \<mapsto>
                    join_nl (csv_header # map csv_row results))\<rparr>)) \<and>
   write_summary_batch results fs =
     Inr (fs\<lparr>files := (files fs)(''lighthouse-results.csv'' \<mapsto>
                 join_nl (csv_header_batch # map csv_row_batch results))\<rparr>) \<and>
   ((\<forall>r\<in>set results. CHR 0x0A \<notin> set (url r) \<and> CHR 0x0A \<notin> set (error_or_empty (error r))) \<longrightarrow>
      split_nl (join_nl (csv_header # map csv_row results)) = csv_header # map csv_row results \<and>
      split_nl (join_nl (csv_header_batch # map csv_row_batch results)) =
        csv_header_batch # map csv_row_batch results) \<and>
   csv_header = ''URL,Performance,Accessibility,BestPractices,SEO,Error'' \<and>
   csv_header_batch = ''URL,Performance,Accessibility,BestPractices,SEO'' \<and>
   csv_row r =
     [CHR 0x22] @ url r @ [CHR 0x22] @ '','' @ score_or_empty (Performance r) @ '','' @
     score_or_empty (Accessibility r) @ '','' @ score_or_empty (BestPractices r) @ '','' @
     score_or_empty (SEO r) @ '','' @ [CHR 0x22] @ error_or_empty (error r) @ [CHR 0x22] \<and>
   csv_row_batch r =
     [CHR 0x22] @ url r @ [CHR 0x22] @ '','' @ score_or_empty (Performance r) @ '','' @
     score_or_empty (Accessibility r) @ '','' @ score_or_empty (BestPractices r) @ '','' @
     score_or_empty (SEO r) \<and>
   (n \<noteq> 0 \<longrightarrow> score_or_empty (Num n) = number_text n) \<and>
   score_or_empty NA = ''N/A'' \<and> score_or_empty Absent = [] \<and>
   error_or_empty None = [] \<and> error_or_empty (Some m) = m"
proof (intro conjI impI)
  assume "writable fs (base @ ''.csv'')"
  then show "generateCSV base results fs =
        Inr (base @ ''.csv'',
             fs\<lparr>files := (files fs)(base @ ''.csv'' \<mapsto>
                    join_nl (csv_header # map csv_row results))\<rparr>)"
    by (rule generateCSV_writes)
next
  show "write_summary_batch results fs =
     Inr (fs\<lparr>files := (files fs)(''lighthouse-results.csv'' \<mapsto>
                 join_nl (csv_header_batch # map csv_row_batch results))\<rparr>)"
    by (rule write_summary_batch_writes)
next
  assume a: "\<forall>r\<in>set results. CHR 0x0A \<notin> set (url r) \<and> CHR 0x0A \<notin> set (error_or_empty (error r))"
  have "\<forall>x\<in>set (csv_header # map csv_row results). CHR 0x0A \<notin> set x"
    using a by (auto simp: csv_header_def dest: csv_row_no_newline)
  then show "split_nl (join_nl (csv_header # map csv_row results)) = csv_header # map csv_row results"
    by (intro split_join) simp_all
  have "\<forall>x\<in>set (csv_header_batch # map csv_row_batch results). CHR 0x0A \<notin> set x"
    using a by (auto simp: csv_header_batch_def dest: csv_row_no_newline)
  then show "split_nl (join_nl (csv_header_batch # map csv_row_batch results)) =
        csv_header_batch # map csv_row_batch results"
    by (intro split_join) simp_all
qed (simp_all add: csv_header_def csv_header_batch_def csv_row_def csv_row_batch_def)

text \<open>
  Witness: one successful result written over an existing summary; the old content is
  gone.
\<close>

theorem summary_written_witness:
  "writable \<lparr>files = [''lighthouse-results.csv'' \<mapsto> ''old''], dirs = {}\<rparr> (''lighthouse-results'' @ ''.csv'') \<and>
   (\<exists>fs'. generateCSV ''lighthouse-results'' [sample_result]
            \<lparr>files = [''lighthouse-results.csv'' \<mapsto> ''old''], dirs = {}\<rparr> =
              Inr (''lighthouse-results.csv'', fs') \<and>
          files fs' ''lighthouse-results.csv'' =
            Some (''URL,Performance,Accessibility,BestPractices,SEO,Error'' @ [CHR 0x0A] @
                  [CHR 0x22] @ ''https://example.com'' @ [CHR 0x22] @ '',90,95,100,88,'' @
                  [CHR 0x22, CHR 0x22])) \<and>
   split_nl (join_nl (csv_header # map csv_row [sample_result])) = [csv_header, csv_row sample_result] \<and>
   score_or_empty (Num 90) = ''90''"
proof -
  let ?fs = "\<lparr>files = [''lighthouse-results.csv'' \<mapsto> ''old''], dirs = {}\<rparr>"
  have w: "writable ?fs (''lighthouse-results'' @ ''.csv'')"
    by (simp add: writable_def)
  have n: "\<forall>r\<in>set [sample_result]. CHR 0x0A \<notin> set (url r) \<and> CHR 0x0A \<notin> set (error_or_empty (error r))"
    by (simp add: sample_result_def)
  note T = summary_written [where fs = ?fs and base = "''lighthouse-results''"
      and results = "[sample_result]"]
  from T [THEN conjunct1] w
  have g: "generateCSV ''lighthouse-results'' [sample_result] ?fs =
        Inr (''lighthouse-results'' @ ''.csv'',
             ?fs\<lparr>files := (files ?fs)(''lighthouse-results'' @ ''.csv'' \<mapsto>
                    join_nl (csv_header # map csv_row [sample_result]))\<rparr>)"
    by (rule mp)
  from T [THEN conjunct2, THEN conjunct2, THEN conjunct1] n
  have s: "split_nl (join_nl (csv_header # map csv_row [sample_result])) = csv_header # map csv_row [sample_result]"
    by blast
  from g have "\<exists>fs'. generateCSV ''lighthouse-results'' [sample_result] ?fs =
              Inr (''lighthouse-results.csv'', fs') \<and>
          files fs' ''lighthouse-results.csv'' =
            Some (''URL,Performance,Accessibility,BestPractices,SEO,Error'' @ [CHR 0x0A] @
                  [CHR 0x22] @ ''https://example.com'' @ [CHR 0x22] @ '',90,95,100,88,'' @
                  [CHR 0x22, CHR 0x22])"
    by (simp add: csv_header_def sample_row)
  moreover
  from T [where n = 90] have "score_or_empty (Num 90) = number_text 90" by simp
  then have "score_or_empty (Num 90) = ''90''"
    by (simp add: number_text_def digits.simps)
  ultimately show ?thesis using w s by simp
qed

text \<open>
  C8 as stated fails on the batch script: the row of a URL whose audit threw has four
  empty score fields, neither numbers nor the sentinel.
\<close>

theorem batch_summary_empty_scores:
  "map_option (\<lambda>(code, st'). files (disk st') ''lighthouse-results.csv'')
     (run_batch_script sample_URL engine_throws (fresh (disk_with_urls ''http://a.b''))) =
   Some (Some (''URL,Performance,Accessibility,BestPractices,SEO'' @ [CHR 0x0A] @
               [CHR 0x22] @ ''http://a.b'' @ [CHR 0x22] @ '',,,,''))"
  by (simp add: run_batch_script_def urls_batch_reads_file disk_with_urls_def fresh_def
        url_lines_batch_def trim_def is_space_def startsWith_http_def runInBatches_sequence
        job_batch_def runLighthouse_batch_def engine_throws_def sample_browser_def Let_def
        write_summary_batch_writes csv_header_batch_def csv_row_batch_def)

text \<open>
  C10. A category score equal to the number 0 is written as an empty field, by the
  \<^verbatim>\<open>|| ""\<close> of the row template, in \<^verbatim>\<open>generateCSV\<close> and in the batch script alike: the
  field is empty, and the row is the very row of a result that has no such score at
  all.
\<close>

theorem zero_score_erased:
  "score_or_empty (Num 0) = [] \<and>
   csv_row (r\<lparr>Performance := Num 0\<rparr>) =
     [CHR 0x22] @ url r @ [CHR 0x22] @ '',,'' @
     score_or_empty (Accessibility r) @ '','' @ score_or_empty (BestPractices r) @ '','' @
     score_or_empty (SEO r) @ '','' @ [CHR 0x22] @ error_or_empty (error r) @ [CHR 0x22] \<and>
   csv_row (r\<lparr>Accessibility := Num 0\<rparr>) =
     [CHR 0x22] @ url r @ [CHR 0x22] @ '','' @ score_or_empty (Performance r) @ '',,'' @
     score_or_empty (BestPractices r) @ '','' @
     score_or_empty (SEO r) @ '','' @ [CHR 0x22] @ error_or_empty (error r) @ [CHR 0x22] \<and>
   csv_row (r\<lparr>BestPractices := Num 0\<rparr>) =
     [CHR 0x22] @ url r @ [CHR 0x22] @ '','' @ score_or_empty (Performance r) @ '','' @
     score_or_empty (Accessibility r) @ '',,'' @
     score_or_empty (SEO r) @ '','' @ [CHR 0x22] @ error_or_empty (error r) @ [CHR 0x22] \<and>
   csv_row (r\<lparr>SEO := Num 0\<rparr>) =
     [CHR 0x22] @ url r @ [CHR 0x22] @ '','' @ score_or_empty (Performance r) @ '','' @
     score_or_empty (Accessibility r) @ '','' @ score_or_empty (BestPractices r) @ '',,'' @
     [CHR 0x22] @ error_or_empty (error r) @ [CHR 0x22] \<and>
   csv_row (r\<lparr>Performance := Num 0\<rparr>) = csv_row (r\<lparr>Performance := Absent\<rparr>) \<and>
   csv_row (r\<lparr>Accessibility := Num 0\<rparr>) = csv_row (r\<lparr>Accessibility := Absent\<rparr>) \<and>
   csv_row (r\<lparr>BestPractices := Num 0\<rparr>) = csv_row (r\<lparr>BestPractices := Absent\<rparr>) \<and>
   csv_row (r\<lparr>SEO := Num 0\<rparr>) = csv_row (r\<lparr>SEO := Absent\<rparr>) \<and>
   csv_row_batch (r\<lparr>Performance := Num 0\<rparr>) = csv_row_batch (r\<lparr>Performance := Absent\<rparr>) \<and>
   csv_row_batch (r\<lparr>Accessibility := Num 0\<rparr>) = csv_row_batch (r\<lparr>Accessibility := Absent\<rparr>) \<and>
   csv_row_batch (r\<lparr>BestPractices := Num 0\<rparr>) = csv_row_batch (r\<lparr>BestPractices := Absent\<rparr>) \<and>
   csv_row_batch (r\<lparr>SEO := Num 0\<rparr>) = csv_row_batch (r\<lparr>SEO := Absent\<rparr>)"
  by (simp add: csv_row_def csv_row_batch_def)

section \<open>A run without URLs\<close>

text \<open>
  With the script's own default URLs \<^verbatim>\<open>loadUrls\<close> never returns an empty list, so \<^verbatim>\<open>main\<close>
  never takes the branch that calls \<^verbatim>\<open>process.exit(1)\<close>.
\<close>

lemma loadUrls_not_empty: "loadUrls new_URL defaultUrls path fs \<noteq> Inr []"
  by (simp add: loadUrls_inverted defaultUrls_def)

lemma main_never_exits: "fst (main new_URL W opts st) \<noteq> Exit n"
proof (cases "loadUrls new_URL defaultUrls (opt_urls opts) (disk st)")
  case (Inl e)
  then show ?thesis by (simp add: main_def)
next
  case (Inr us)
  with loadUrls_not_empty [of new_URL "opt_urls opts" "disk st"] have "us \<noteq> []" by auto
  with Inr show ?thesis
    by (auto simp: main_def Let_def split: prod.splits option.splits sum.splits)
qed

lemma batch_without_urls:
  assumes "urls_batch (disk st) = Inr []"
  shows "run_batch_script new_URL W st =
           Some (0, st\<lparr>disk := (ensureOutputDir (disk st))
                          \<lparr>files := (files (ensureOutputDir (disk st)))
                                      (''lighthouse-results.csv'' \<mapsto> csv_header_batch)\<rparr>\<rparr>)"
  using assms
  by (simp add: run_batch_script_def runInBatches_sequence write_summary_batch_writes Let_def)

text \<open>
  C9, as the code has it. An empty work set arises in the batch script only, whose
  default set is empty: when the URL file yields no candidate, the script makes the
  folder \<^verbatim>\<open>reports\<close>, writes a summary that holds the header and nothing else, and ends
  with code 0. In \<^verbatim>\<open>index.js\<close> the default set holds two URLs: \<^verbatim>\<open>loadUrls\<close> never returns an
  empty list, and \<^verbatim>\<open>main\<close> never ends by the \<^verbatim>\<open>process.exit(1)\<close> of its check.
\<close>

theorem empty_work_set:
  "(urls_batch (disk st) = Inr [] \<longrightarrow>
      run_batch_script new_URL W st =
        Some (0, st\<lparr>disk := (ensureOutputDir (disk st))
                       \<lparr>files := (files (ensureOutputDir (disk st)))
                                   (''lighthouse-results.csv'' \<mapsto> csv_header_batch)\<rparr>\<rparr>)) \<and>
   csv_header_batch = ''URL,Performance,Accessibility,BestPractices,SEO'' \<and>
   loadUrls new_URL defaultUrls path fs \<noteq> Inr [] \<and>
   fst (main new_URL W opts st) \<noteq> Exit n"
  by (simp add: batch_without_urls loadUrls_not_empty main_never_exits csv_header_batch_def)

text \<open>
  Witness: a URL file whose only line is no candidate; the batch script ends with code
  0, the summary is the header, and the folder \<^verbatim>\<open>reports\<close> exists.
\<close>

theorem empty_work_set_witness:
  "urls_batch (disk (fresh (disk_with_urls ''ftp://x''))) = Inr [] \<and>
   map_option (\<lambda>(code, st'). (code, files (disk st') ''lighthouse-results.csv'',
                                ''reports'' \<in> dirs (disk st')))
     (run_batch_script sample_URL engine_succeeds (fresh (disk_with_urls ''ftp://x''))) =
   Some (0, Some ''URL,Performance,Accessibility,BestPractices,SEO'', True)"
proof -
  have u: "urls_batch (disk (fresh (disk_with_urls ''ftp://x''))) = Inr []"
    by (simp add: urls_batch_reads_file fresh_def disk_with_urls_def url_lines_batch_def
          trim_def is_space_def startsWith_http_def)
  note T = empty_work_set [where st = "fresh (disk_with_urls ''ftp://x'')"
      and new_URL = sample_URL and W = engine_succeeds]
  from T [THEN conjunct1] u
  have "run_batch_script sample_URL engine_succeeds (fresh (disk_with_urls ''ftp://x'')) =
        Some (0, (fresh (disk_with_urls ''ftp://x''))
                   \<lparr>disk := (ensureOutputDir (disk (fresh (disk_with_urls ''ftp://x''))))
                       \<lparr>files := (files (ensureOutputDir (disk (fresh (disk_with_urls ''ftp://x'')))))
                                   (''lighthouse-results.csv'' \<mapsto> csv_header_batch)\<rparr>\<rparr>)"
    by (rule mp)
  then have "map_option (\<lambda>(code, st'). (code, files (disk st') ''lighthouse-results.csv'',
                                ''reports'' \<in> dirs (disk st')))
     (run_batch_script sample_URL engine_succeeds (fresh (disk_with_urls ''ftp://x''))) =
   Some (0, Some ''URL,Performance,Accessibility,BestPractices,SEO'', True)"
    by (simp add: csv_header_batch_def ensureOutputDir_def existsSync_def mkdirSync_def
          fresh_def disk_with_urls_def)
  with u show ?thesis by simp
qed

text \<open>
  C9 as stated fails on the batch script, whose default set is empty: with no URL file
  it writes a summary that holds the header only and ends with code 0.
\<close>

theorem batch_header_only_summary:
  "map_option (\<lambda>(code, st'). (code, files (disk st') ''lighthouse-results.csv''))
     (run_batch_script sample_URL engine_succeeds (fresh empty_disk)) =
   Some (0, Some ''URL,Performance,Accessibility,BestPractices,SEO'')"
  by (simp add: run_batch_script_def urls_batch_def urlList_batch_def existsSync_def
        empty_disk_def fresh_def defaultUrls_batch_def runInBatches_sequence
        write_summary_batch_writes csv_header_batch_def Let_def)

section \<open>A successful attempt\<close>

text \<open>
  An audit that succeeds: the two reports are on the disk, the browser was launched and
  killed once, and \<^verbatim>\<open>runLighthouseWithRetry\<close> returns the object after this one attempt.
\<close>

lemma retry_succeeds_first:
  "fst (runLighthouse new_URL W u st) = Inr r \<Longrightarrow> \<not> truthy (error r) \<Longrightarrow> 0 \<le> R \<Longrightarrow>
     runLighthouseWithRetry new_URL W u R st = (Some r, snd (runLighthouse new_URL W u st))"
  unfolding runLighthouseWithRetry_def
  by (subst runLighthouseWithRetry_from.simps) (auto split: prod.splits sum.splits)

lemma sample_audit:
  "runLighthouse sample_URL engine_succeeds ''https://example.com''
     \<lparr>disk = \<lparr>files = fl, dirs = {''reports''}\<rparr>, trace = tr, calls = k\<rparr> =
   (Inr sample_result,
    \<lparr>disk = \<lparr>files = fl(''reports/example_com__2025-01-01T10-21-55-123Z.json'' \<mapsto> ''{}'',
                         ''reports/example_com__2025-01-01T10-21-55-123Z.html'' \<mapsto> ''<html></html>''),
             dirs = {''reports''}\<rparr>,
     trace = tr @ [Launch k, Audit k ''https://example.com'', Kill k], calls = Suc k\<rparr>)"
  by (simp add: runLighthouse_def runLighthouse_try_def engine_succeeds_def sample_browser_def
        Let_def safeName_def sample_URL_def writeFileSync_def writable_def
        dots_to_underscores_def stamp_of_def sample_now_def sample_report_def sample_result_def
        score_or_NA_def)

end
